theory Spec2Isabelle
  imports Main
begin

section \<open>Python values and string primitives\<close>

text \<open>
  The values that reach the tracer and the keyed singleton: \<open>None\<close>, booleans,
  unbounded integers, strings, instances of user classes, and the class
  \<open>inspect._empty\<close>, which \<open>inspect.Parameter.default\<close> holds for a parameter
  declared without a default.  An instance carries the names of the classes it
  is an instance of (its own class and the bases), the text \<open>str\<close> gives for it,
  the text \<open>repr\<close> gives for it, and its truth value (\<open>True\<close> unless the class
  defines \<open>__bool__\<close> or \<open>__len__\<close>); so a list or a tuple is such an instance.
\<close>

datatype pyval =
    PNone
  | PBool bool
  | PInt int
  | PStr string
  | PObj "string list" string string bool
  | PEmpty

datatype error = IndexError | KeyError | TypeError | AttributeError | ValueError | Raised string

text \<open>Decimal text of an integer, as \<open>str\<close> and \<open>repr\<close> print it.\<close>

definition digit :: "nat \<Rightarrow> char" where
  "digit d = ''0123456789'' ! d"

function str_nat :: "nat \<Rightarrow> string" where
  "str_nat n = (if n < 10 then [digit n] else str_nat (n div 10) @ [digit (n mod 10)])"
  by pat_completeness auto
termination
  by (relation "measure id") auto

definition str_int :: "int \<Rightarrow> string" where
  "str_int i = (if i < 0 then CHR ''-'' # str_nat (nat (- i)) else str_nat (nat i))"

text \<open>\<open>str(v)\<close>, which is also what \<open>f"{v}"\<close> formats.\<close>

fun py_str :: "pyval \<Rightarrow> string" where
  "py_str PNone = ''None''"
| "py_str (PBool b) = (if b then ''True'' else ''False'')"
| "py_str (PInt i) = str_int i"
| "py_str (PStr s) = s"
| "py_str (PObj cs t r b) = t"
| "py_str PEmpty = ''<class 'inspect._empty'>''"

text \<open>Truth value of \<open>if v:\<close>.\<close>

fun truthy :: "pyval \<Rightarrow> bool" where
  "truthy PNone = False"
| "truthy (PBool b) = b"
| "truthy (PInt i) = (i \<noteq> 0)"
| "truthy (PStr s) = (s \<noteq> [])"
| "truthy (PObj cs t r b) = b"
| "truthy PEmpty = True"

fun is_str :: "pyval \<Rightarrow> bool" where
  "is_str (PStr s) = True"
| "is_str v = False"

text \<open>\<open>isinstance(v, cls)\<close> for a user class named \<open>c\<close>.\<close>

fun isinstance :: "pyval \<Rightarrow> string \<Rightarrow> bool" where
  "isinstance (PObj cs t r b) c = (c \<in> set cs)"
| "isinstance v c = False"

text \<open>\<open>s.startswith(p)\<close>, \<open>s.endswith(p)\<close>, \<open>s.find(t)\<close> and \<open>t in s\<close>.\<close>

definition startswith :: "string \<Rightarrow> string \<Rightarrow> bool" where
  "startswith s p = (take (length p) s = p)"

definition endswith :: "string \<Rightarrow> string \<Rightarrow> bool" where
  "endswith s p = (length p \<le> length s \<and> drop (length s - length p) s = p)"

fun find_from :: "string \<Rightarrow> string \<Rightarrow> int \<Rightarrow> int" where
  "find_from [] t i = (if t = [] then i else - 1)"
| "find_from (c # cs) t i = (if startswith (c # cs) t then i else find_from cs t (i + 1))"

definition find_str :: "string \<Rightarrow> string \<Rightarrow> int" where
  "find_str s t = find_from s t 0"

definition contains :: "string \<Rightarrow> string \<Rightarrow> bool" where
  "contains s t = (find_str s t > - 1)"

text \<open>
  \<open>s.replace(old, new)\<close>: every non-overlapping occurrence, leftmost first.
  For an empty \<open>old\<close> Python puts \<open>new\<close> before every character and at the end.
\<close>

function replace :: "string \<Rightarrow> string \<Rightarrow> string \<Rightarrow> string" where
  "replace [] old new = (if old = [] then new else [])"
| "replace (c # cs) old new =
     (if old = [] then new @ c # replace cs old new
      else if startswith (c # cs) old then new @ replace (drop (length old - 1) cs) old new
      else c # replace cs old new)"
  by pat_completeness auto
termination
  by (relation "measure (\<lambda>(s, old, new). length s)") auto

text \<open>\<open>s.split("\n")\<close>: the pieces between line feeds, at least one piece.\<close>

fun split_lines :: "string \<Rightarrow> string list" where
  "split_lines [] = [[]]"
| "split_lines (c # cs) =
     (if c = CHR 0x0A then [] # split_lines cs
      else (case split_lines cs of [] \<Rightarrow> [[c]] | l # ls \<Rightarrow> (c # l) # ls))"

text \<open>
  \<open>s.strip()\<close> removes leading and trailing white space (the ASCII characters for which
  \<open>str.isspace\<close> holds); \<open>s.strip("'")\<close> removes leading and trailing apostrophes.
\<close>

definition is_space :: "char \<Rightarrow> bool" where
  "is_space c = (c \<in> set [CHR 0x20, CHR 0x09, CHR 0x0A, CHR 0x0B, CHR 0x0C, CHR 0x0D,
                           CHR 0x1C, CHR 0x1D, CHR 0x1E, CHR 0x1F])"

definition strip_chars :: "(char \<Rightarrow> bool) \<Rightarrow> string \<Rightarrow> string" where
  "strip_chars p s = rev (dropWhile p (rev (dropWhile p s)))"

definition strip :: "string \<Rightarrow> string" where
  "strip s = strip_chars is_space s"

definition strip_quote :: "string \<Rightarrow> string" where
  "strip_quote s = strip_chars (\<lambda>c. c = CHR 0x27) s"

section \<open>The keyed singleton (class Singleton)\<close>

text \<open>
  \<open>Singleton.__call__\<close>, lines 42 and 43: \<open>kargs\<close> joins \<open>f"{key}"\<close> over the positional
  arguments, \<open>kkwargs\<close> joins \<open>f"{key}"\<close> over \<open>kwargs\<close>; iterating a dict yields its
  keys, so \<open>kkwargs\<close> is made of the keyword names.  Keyword arguments are an
  association list in the dict's iteration order.
\<close>

definition kargs :: "pyval list \<Rightarrow> string" where
  "kargs args = (if args \<noteq> [] then concat (map py_str args) else [])"

definition kkwargs :: "(string \<times> pyval) list \<Rightarrow> string" where
  "kkwargs kwargs = (if kwargs \<noteq> [] then concat (map fst kwargs) else [])"

definition cache_key :: "pyval list \<Rightarrow> (string \<times> pyval) list \<Rightarrow> string" where
  "cache_key args kwargs = kargs args @ kkwargs kwargs"

text \<open>
  The key as the specification words it: the text of each positional argument, then
  the text of each keyword argument, no separator.
\<close>

definition spec_cache_key :: "pyval list \<Rightarrow> (string \<times> pyval) list \<Rightarrow> string" where
  "spec_cache_key args kwargs = concat (map py_str args) @ concat (map (py_str \<circ> snd) kwargs)"

text \<open>
  The state one class with metaclass \<open>Singleton\<close> sees: its \<open>_cache\<close> (a
  \<open>WeakValueDictionary\<close> from key to instance, instances named by their identity), the
  shared attribute \<open>Singleton.__instance\<close>, the next fresh identity, and a count of the
  constructor runs.
\<close>

record singleton =
  cache :: "string \<rightharpoonup> nat"
  instance_ref :: "nat option"
  next_id :: nat
  constructed :: nat

text \<open>
  \<open>Singleton.__call__\<close> run by one thread.  The constructor \<open>super().__call__\<close> either
  raises (\<open>ctor args kwargs = Some e\<close>) or yields a new object.
\<close>

definition singleton_call ::
  "(pyval list \<Rightarrow> (string \<times> pyval) list \<Rightarrow> error option) \<Rightarrow> singleton \<Rightarrow>
   pyval list \<Rightarrow> (string \<times> pyval) list \<Rightarrow> (error + nat) \<times> singleton" where
  "singleton_call ctor s args kwargs =
     (let k = cache_key args kwargs in
      case cache s k of
        None \<Rightarrow>
          (case ctor args kwargs of
             Some e \<Rightarrow> (Inl e, s\<lparr>constructed := constructed s + 1\<rparr>)
           | None \<Rightarrow>
               (Inr (next_id s),
                s\<lparr>cache := (cache s)(k \<mapsto> next_id s),
                  instance_ref := Some (next_id s),
                  next_id := next_id s + 1,
                  constructed := constructed s + 1\<rparr>))
      | Some i \<Rightarrow> (Inr i, s\<lparr>instance_ref := Some i\<rparr>))"

text \<open>
  Weak ownership: an entry of \<open>_cache\<close> lasts while its instance is strongly referenced.
  \<open>collect strong s\<close> is the state after the instances outside \<open>strong\<close> have lost their
  last owner; \<open>Singleton.__instance\<close> is itself a strong reference.
\<close>

definition collect :: "nat set \<Rightarrow> singleton \<Rightarrow> singleton" where
  "collect strong s =
     s\<lparr>cache := (\<lambda>k. case cache s k of
                        None \<Rightarrow> None
                      | Some i \<Rightarrow> if i \<in> strong \<or> instance_ref s = Some i then Some i else None)\<rparr>"

definition fresh_state :: singleton where
  "fresh_state = \<lparr>cache = Map.empty, instance_ref = None, next_id = 0, constructed = 0\<rparr>"

text \<open>Identities in the cache have been handed out already.\<close>

definition allocated :: "singleton \<Rightarrow> bool" where
  "allocated s = (ran (cache s) \<subseteq> {i. i < next_id s})"

section \<open>Callables as the tracer sees them\<close>

text \<open>
  What \<open>_trace\<close> and \<open>is_static_method\<close> read of a callable through \<open>inspect\<close>: the
  parameters of \<open>inspect.signature\<close> in order (\<open>pdefault\<close> is \<open>PEmpty\<close> for a parameter
  without a default), \<open>__name__\<close>, \<open>__doc__\<close>, \<open>inspect.ismethod\<close>, and the outcome of
  \<open>inspect._findclass\<close>: it raises, it returns \<open>None\<close>, or it returns a class.  Of a
  class the tracer reads the name (for \<open>isinstance\<close>) and, through \<open>getattr\<close>, its
  attributes: a routine with its signature and \<open>inspect.isfunction\<close>, or something else.
  \<open>fn_body\<close> is the callable itself: it returns a value or raises.
\<close>

datatype param_kind =
  POSITIONAL_ONLY | POSITIONAL_OR_KEYWORD | VAR_POSITIONAL | KEYWORD_ONLY | VAR_KEYWORD

record param =
  pname :: string
  pdefault :: pyval
  pkind :: param_kind

datatype attr_value = Routine "param list" bool | NonRoutine

record klass =
  kname :: string
  kattrs :: "string \<rightharpoonup> attr_value"

record func =
  fn_name :: string
  fn_doc :: "string option"
  fn_params :: "param list"
  fn_ismethod :: bool
  fn_findclass :: "error + klass option"
  fn_body :: "pyval list \<Rightarrow> (string \<times> pyval) list \<Rightarrow> error + pyval"

text \<open>\<open>is_static_method(klass_or_instance, attr)\<close>, lines 55 to 87.\<close>

definition positional_names :: "param list \<Rightarrow> string list" where
  "positional_names ps =
     map pname (filter (\<lambda>p. pkind p = POSITIONAL_ONLY \<or> pkind p = POSITIONAL_OR_KEYWORD) ps)"

definition is_static_method :: "klass \<Rightarrow> string \<Rightarrow> error + bool" where
  "is_static_method k attr =
     (if startswith attr ''_'' then Inr False
      else case kattrs k attr of
             None \<Rightarrow> Inl AttributeError
           | Some NonRoutine \<Rightarrow> Inr False
           | Some (Routine ps isfunction) \<Rightarrow>
               (case positional_names ps of
                  [] \<Rightarrow> Inr True
                | n # ns \<Rightarrow> if n = ''self'' then Inr False else Inr isfunction))"

section \<open>The call tracer (_trace)\<close>

text \<open>
  Lines 94 to 114: the argument list the rest of \<open>wrapped\<close> works with.  \<open>a[0]\<close> on
  an empty tuple raises the \<open>IndexError\<close> that is caught; \<open>isinstance\<close> with \<open>None\<close> for a
  class raises \<open>TypeError\<close>, which is not.  The test \<open>if func:\<close> of line 101 holds of
  every function object.
\<close>

definition resolve_args :: "func \<Rightarrow> pyval list \<Rightarrow> error + pyval list" where
  "resolve_args f a =
     (case a of
        [] \<Rightarrow> Inr a
      | a0 # rest \<Rightarrow>
          (case fn_findclass f of
             Inl e \<Rightarrow> Inl e
           | Inr None \<Rightarrow> Inl TypeError
           | Inr (Some k) \<Rightarrow>
               if isinstance a0 (kname k) \<and> fn_name f \<noteq> ''__init__'' then
                 (case is_static_method k (fn_name f) of
                    Inl e \<Rightarrow> Inl e
                  | Inr static \<Rightarrow> if fn_ismethod f \<or> static then Inr rest else Inr a)
               else Inr a))"

text \<open>
  Lines 118 and 119: the documentation up to the first of the four markers, its lines
  stripped and joined.
\<close>

definition markers :: "string list" where
  "markers = ['':param'', ''@param'', ''@return'', '':return'']"

fun before_marker :: "string \<Rightarrow> string" where
  "before_marker [] = []"
| "before_marker (c # cs) =
     (if list_ex (startswith (c # cs)) markers then [] else c # before_marker cs)"

definition doc_title :: "string \<Rightarrow> string" where
  "doc_title d = concat (map strip (split_lines (before_marker d)))"

text \<open>
  \<open>represent\<close> of the step-reporting library: a string between apostrophes, \<open>repr\<close>
  of anything else (\<open>py_repr\<close> is \<open>repr\<close> on the values that are not strings, where it
  differs from \<open>str\<close> for instances only).  \<open>args[index]\<close> raises \<open>IndexError\<close> past the
  end.
\<close>

fun py_repr :: "pyval \<Rightarrow> string" where
  "py_repr (PObj cs t r b) = r"
| "py_repr v = py_str v"

definition represent :: "pyval \<Rightarrow> pyval" where
  "represent v = PStr (if is_str v then [CHR 0x27] @ py_str v @ [CHR 0x27] else py_repr v)"

definition item :: "'a list \<Rightarrow> nat \<Rightarrow> error + 'a" where
  "item xs i = (if i < length xs then Inr (xs ! i) else Inl IndexError)"

text \<open>
  Lines 127 to 139, the value bound to one parameter: the declared default, then (only
  with step reporting) the positional argument at the parameter's index, then the keyword
  argument of its name.
\<close>

definition bind_param ::
  "bool \<Rightarrow> pyval list \<Rightarrow> (string \<times> pyval) list \<Rightarrow> nat \<Rightarrow> param \<Rightarrow> pyval" where
  "bind_param allure_step a kw index p =
     (let v0 = pdefault p;
          v1 = (if allure_step then
                  (let args = map represent a in
                   if args \<noteq> [] then (case item args index of Inr x \<Rightarrow> x | Inl e \<Rightarrow> v0)
                   else v0)
                else v0)
      in if kw \<noteq> [] then (case map_of kw (pname p) of Some x \<Rightarrow> x | None \<Rightarrow> v1) else v1)"

text \<open>
  Lines 120 to 139: \<open>params_text\<close>, in insertion order.  A parameter named \<open>self\<close> is
  skipped, and still counted by \<open>enumerate\<close>.
\<close>

fun params_text ::
  "bool \<Rightarrow> pyval list \<Rightarrow> (string \<times> pyval) list \<Rightarrow> nat \<Rightarrow> param list \<Rightarrow> (string \<times> pyval) list" where
  "params_text allure_step a kw index [] = []"
| "params_text allure_step a kw index (p # ps) =
     (if pname p = ''self'' then params_text allure_step a kw (index + 1) ps
      else (pname p, bind_param allure_step a kw index p)
             # params_text allure_step a kw (index + 1) ps)"

text \<open>Lines 141 to 151: one round of the replacement loop.\<close>

definition placeholder :: "string \<Rightarrow> string" where
  "placeholder parameter = ''{{'' @ parameter @ ''}}''"

definition substitute :: "string \<Rightarrow> string \<times> pyval \<Rightarrow> string" where
  "substitute title pa =
     (case pa of (parameter, argument) \<Rightarrow>
        if contains title parameter then
          (if truthy argument then
             replace title (placeholder parameter)
               (if is_str argument then strip_quote (py_str argument) else py_str argument)
           else replace title (placeholder parameter) [])
        else title)"

text \<open>The title of a traced call, lines 115 to 155, on the path that logs.\<close>

definition has_doc :: "func \<Rightarrow> bool" where
  "has_doc f = (case fn_doc f of None \<Rightarrow> False | Some d \<Rightarrow> d \<noteq> [])"

definition render_title ::
  "bool \<Rightarrow> func \<Rightarrow> pyval list \<Rightarrow> (string \<times> pyval) list \<Rightarrow> string" where
  "render_title allure_step f a kw =
     (case fn_doc f of
        None \<Rightarrow> fn_name f
      | Some d \<Rightarrow>
          if d = [] then fn_name f
          else foldl substitute (doc_title d) (params_text allure_step a kw 0 (fn_params f)))"

text \<open>
  \<open>wrapped\<close>, lines 93 to 163.  What it does is a list of events (the log record, the
  step scope, the call of the original callable) and what it returns or raises.
  \<open>allure_step\<close> is the flag \<open>ALLURE_STEP\<close>.  The collaborators are taken not to raise:
  \<open>logger.info\<close>, \<open>func_parameters\<close>, and \<open>StepContext\<close>, whose exit lets an exception of
  the call pass.
\<close>

datatype event =
    Log_info string
  | Step_enter string
  | Call "pyval list" "(string \<times> pyval) list"
  | Step_exit

definition wrapped ::
  "bool \<Rightarrow> func \<Rightarrow> pyval list \<Rightarrow> (string \<times> pyval) list \<Rightarrow> event list \<times> (error + pyval)" where
  "wrapped allure_step f a0 kw =
     (case resolve_args f a0 of
        Inl e \<Rightarrow> ([], Inl e)
      | Inr a \<Rightarrow>
          if has_doc f \<and> startswith (fn_name f) ''_'' then ([Call a kw], fn_body f a kw)
          else
            (let title = render_title allure_step f a kw;
                 line = Log_info (''['' @ fn_name f @ '']: '' @ title)
             in if fn_name f \<noteq> ''__init__'' then
                  (if allure_step then
                     ([line, Step_enter title, Call a kw, Step_exit], fn_body f a kw)
                   else ([line], Inr PNone))
                else ([line, Call a kw], fn_body f a kw)))"

definition calls :: "event list \<Rightarrow> (pyval list \<times> (string \<times> pyval) list) list" where
  "calls es = concat (map (\<lambda>e. case e of Call a kw \<Rightarrow> [(a, kw)] | _ \<Rightarrow> []) es)"

section \<open>The class instrumentor (log)\<close>

text \<open>
  The configuration object: the three lists of class-name rules.
\<close>

record config =
  CLASS_NAME_STARTSWITH :: "string list"
  CLASS_NAME_ENDSWITH :: "string list"
  CLASS_NAME_CONTAIN :: "string list"

text \<open>
  A class as \<open>inspect.getmembers\<close> lists it: attribute names with their values.  Of a
  function or method the instrumentor reads \<open>__qualname__\<close> (which \<open>functools.wraps\<close>
  copies to the wrapper) and the attribute \<open>__log\<close>; \<open>origin\<close> names the function the
  class was written with and \<open>wrappers\<close> counts the \<open>_trace\<close> wrappers around it, so
  two members are the same object exactly when the records are equal.
\<close>

record member =
  qualname :: string
  origin :: nat
  wrappers :: nat
  log_mark :: "bool option"

datatype member_value = Function member | Other

type_synonym pyclass = "(string \<times> member_value) list"

definition class_name :: "member \<Rightarrow> string" where
  "class_name m = takeWhile (\<lambda>c. c \<noteq> CHR ''.'') (qualname m)"

definition selected :: "config \<Rightarrow> string \<Rightarrow> bool" where
  "selected cfg cn =
     (list_ex (startswith cn) (CLASS_NAME_STARTSWITH cfg)
      \<or> list_ex (endswith cn) (CLASS_NAME_ENDSWITH cfg)
      \<or> list_ex (\<lambda>text. find_str cn text > - 1) (CLASS_NAME_CONTAIN cfg))"

text \<open>
  Lines 188 and 189 (and 191, 192): the attribute becomes a new wrapper around the
  member, and the wrapper gets \<open>__log = True\<close>.
\<close>

definition trace_member :: "member \<Rightarrow> member" where
  "trace_member m = m\<lparr>wrappers := wrappers m + 1, log_mark := Some True\<rparr>"

text \<open>The body of the loop of \<open>log\<close>, lines 173 to 192, for one member.\<close>

definition log_member :: "config \<Rightarrow> string \<times> member_value \<Rightarrow> string \<times> member_value" where
  "log_member cfg nv =
     (case nv of
        (name, Other) \<Rightarrow> nv
      | (name, Function m) \<Rightarrow>
          if startswith name ''_'' then nv
          else if selected cfg (class_name m) then
            (case log_mark m of
               Some mark \<Rightarrow> if \<not> mark then (name, Function (trace_member m)) else nv
             | None \<Rightarrow> (name, Function (trace_member m)))
          else nv)"

definition log :: "config \<Rightarrow> pyclass \<Rightarrow> pyclass" where
  "log cfg cls = map (log_member cfg) cls"

section \<open>The logging facade (logger.debug)\<close>

text \<open>
  \<open>sys._getframe(depth)\<close> over the stack of the frames that called \<open>debug\<close>, the
  immediate caller first, each frame by its \<open>f_code.co_name\<close>: \<open>ValueError\<close> when the
  stack is not that deep.
\<close>

datatype severity = INFO | DEBUG

definition getframe :: "string list \<Rightarrow> nat \<Rightarrow> error + string" where
  "getframe stack depth =
     (if 0 < depth \<and> depth \<le> length stack then Inr (stack ! (depth - 1)) else Inl ValueError)"

text \<open>
  \<open>logger.debug(message, auteadd)\<close>, lines 314 to 328: the record handed to \<open>logging\<close>,
  by severity and text, or the exception that leaves \<open>debug\<close>.  \<open>sink\<close> is the outcome of
  lines 315 and 316 (\<open>None\<close>: the handlers exist or are built), \<open>has_getframe\<close> is
  \<open>hasattr(sys, "_getframe")\<close>; without it the frame is \<open>None\<close> and reading \<open>f_code\<close>
  raises \<open>AttributeError\<close>, which \<open>except ValueError\<close> lets through.
\<close>

definition debug ::
  "error option \<Rightarrow> bool \<Rightarrow> string list \<Rightarrow> string \<Rightarrow> bool \<Rightarrow> error + severity \<times> string" where
  "debug sink has_getframe stack message auteadd =
     (case sink of
        Some e \<Rightarrow> Inl e
      | None \<Rightarrow>
          (case (if auteadd then
                   (if has_getframe then
                      (case getframe stack 1 of
                         Inl e \<Rightarrow> Inl e
                       | Inr n \<Rightarrow> Inr (''['' @ n @ '']: '' @ message))
                    else Inl AttributeError)
                 else Inr message) of
             Inl e \<Rightarrow> Inl e
           | Inr msg \<Rightarrow>
               if has_getframe then
                 (case getframe stack 2 of
                    Inl e \<Rightarrow> Inr (DEBUG, msg)
                  | Inr n \<Rightarrow> if startswith n ''test_'' then Inr (INFO, msg) else Inr (DEBUG, msg))
               else Inl AttributeError))"

section \<open>Threads inside the singleton call\<close>

text \<open>
  Several threads inside \<open>Singleton.__call__\<close> of one class.  A thread is at one of the
  statements of lines 45 to 52 and holds the key it computed; between two statements
  another thread may run.  \<open>Check\<close> is the test of line 45, \<open>Acquire\<close> the entry of the
  \<open>with\<close> block (it waits while another thread holds the lock), \<open>Construct\<close> line 47,
  \<open>Store\<close> line 48, \<open>Release\<close> the exit of the block, \<open>Hit\<close> line 51 and \<open>Return\<close> line 52.
  The constructor succeeds here and no instance loses its owners.
\<close>

datatype pc =
  Check | Acquire | Construct | Store | Release | Hit | Return | Done "error + nat option"

record world = singleton +
  lock :: "nat option"
  threads :: "(pc \<times> string) list"

definition goto :: "nat \<Rightarrow> pc \<Rightarrow> world \<Rightarrow> world" where
  "goto t p w = w\<lparr>threads := (threads w)[t := (p, snd (threads w ! t))]\<rparr>"

definition step :: "nat \<Rightarrow> world \<Rightarrow> world" where
  "step t w =
     (if t < length (threads w) then
        (case threads w ! t of (p, k) \<Rightarrow>
           (case p of
              Check \<Rightarrow> goto t (if cache w k = None then Acquire else Hit) w
            | Acquire \<Rightarrow>
                (case lock w of
                   None \<Rightarrow> goto t Construct (w\<lparr>lock := Some t\<rparr>)
                 | Some holder \<Rightarrow> w)
            | Construct \<Rightarrow>
                goto t Store
                  (w\<lparr>instance_ref := Some (next_id w), next_id := next_id w + 1,
                     constructed := constructed w + 1\<rparr>)
            | Store \<Rightarrow>
                (case instance_ref w of
                   Some i \<Rightarrow> goto t Release (w\<lparr>cache := (cache w)(k \<mapsto> i)\<rparr>)
                 | None \<Rightarrow> goto t (Done (Inl TypeError)) (w\<lparr>lock := None\<rparr>))
            | Release \<Rightarrow> goto t Return (w\<lparr>lock := None\<rparr>)
            | Hit \<Rightarrow>
                (case cache w k of
                   Some i \<Rightarrow> goto t Return (w\<lparr>instance_ref := Some i\<rparr>)
                 | None \<Rightarrow> goto t (Done (Inl KeyError)) w)
            | Return \<Rightarrow> goto t (Done (Inr (instance_ref w))) w
            | Done r \<Rightarrow> w))
      else w)"

fun run :: "nat list \<Rightarrow> world \<Rightarrow> world" where
  "run [] w = w"
| "run (t # ts) w = run ts (step t w)"

definition first_use :: "string list \<Rightarrow> world" where
  "first_use keys =
     \<lparr>cache = Map.empty, instance_ref = None, next_id = 0, constructed = 0,
      lock = None, threads = map (\<lambda>k. (Check, k)) keys\<rparr>"

definition results :: "world \<Rightarrow> pc list" where
  "results w = map fst (threads w)"

section \<open>A traced class\<close>

text \<open>
  \<^verbatim>\<open>
  class Calc:
      def add(self, a, b):
          """Adds {{a}} and {{b}}"""
          return a + b
      def show(self, *items):
          """Show {{items}}"""
          return len(items)
      @staticmethod
      def twice(n=1):
          """Twice {{n}}"""
          return 2 * n
  \<close>
  with \<open>add\<close>, \<open>show\<close> and \<open>twice\<close> replaced by their traces, as \<open>log\<close> leaves them.
\<close>

definition positional :: "string \<Rightarrow> pyval \<Rightarrow> param" where
  "positional n d = \<lparr>pname = n, pdefault = d, pkind = POSITIONAL_OR_KEYWORD\<rparr>"

definition add_params :: "param list" where
  "add_params = [positional ''self'' PEmpty, positional ''a'' PEmpty, positional ''b'' PEmpty]"

definition show_params :: "param list" where
  "show_params =
     [positional ''self'' PEmpty, \<lparr>pname = ''items'', pdefault = PEmpty, pkind = VAR_POSITIONAL\<rparr>]"

definition twice_params :: "param list" where
  "twice_params = [positional ''n'' (PInt 1)]"

definition Calc :: klass where
  "Calc = \<lparr>kname = ''Calc'',
           kattrs = [''add'' \<mapsto> Routine add_params True,
                     ''show'' \<mapsto> Routine show_params True,
                     ''twice'' \<mapsto> Routine twice_params True]\<rparr>"

definition calc :: pyval where
  "calc = PObj [''Calc'', ''object''] ''<Calc object>'' ''<Calc object>'' True"

definition add :: func where
  "add = \<lparr>fn_name = ''add'', fn_doc = Some ''Adds {{a}} and {{b}}'', fn_params = add_params,
          fn_ismethod = False, fn_findclass = Inr (Some Calc),
          fn_body = (\<lambda>a kw. case a of
                               [r, PInt x, PInt y] \<Rightarrow> Inr (PInt (x + y))
                             | _ \<Rightarrow> Inl TypeError)\<rparr>"

definition show_fn :: func where
  "show_fn = \<lparr>fn_name = ''show'', fn_doc = Some ''Show {{items}}'', fn_params = show_params,
          fn_ismethod = False, fn_findclass = Inr (Some Calc),
          fn_body = (\<lambda>a kw. case a of
                               [] \<Rightarrow> Inl TypeError
                             | r # items \<Rightarrow> Inr (PInt (int (length items))))\<rparr>"

definition twice :: func where
  "twice = \<lparr>fn_name = ''twice'', fn_doc = Some ''Twice {{n}}'', fn_params = twice_params,
          fn_ismethod = False, fn_findclass = Inr (Some Calc),
          fn_body = (\<lambda>a kw. case (a, kw) of
                               ([], []) \<Rightarrow> Inr (PInt 2)
                             | ([PInt n], []) \<Rightarrow> Inr (PInt (2 * n))
                             | ([], [(k, PInt n)]) \<Rightarrow>
                                 if k = ''n'' then Inr (PInt (2 * n)) else Inl TypeError
                             | _ \<Rightarrow> Inl TypeError)\<rparr>"

section \<open>Inputs for the examples\<close>

text \<open>A constructor that never raises, and the state after the first \<open>logger("DEBUG")\<close>.\<close>

definition no_failure :: "pyval list \<Rightarrow> (string \<times> pyval) list \<Rightarrow> error option" where
  "no_failure args kwargs = None"

definition after_first :: singleton where
  "after_first = snd (singleton_call no_failure fresh_state [PStr ''DEBUG''] [])"

text \<open>
  Class-name rules that select \<open>Calc\<close>, rules that select nothing, and the members of
  \<open>Calc\<close> before \<open>log\<close> has touched them.
\<close>

definition rules :: config where
  "rules = \<lparr>CLASS_NAME_STARTSWITH = [''Calc''], CLASS_NAME_ENDSWITH = [''Widget''],
            CLASS_NAME_CONTAIN = [''Page'']\<rparr>"

definition plain :: "string \<Rightarrow> nat \<Rightarrow> member" where
  "plain q n = \<lparr>qualname = q, origin = n, wrappers = 0, log_mark = None\<rparr>"

definition Calc_members :: pyclass where
  "Calc_members =
     [(''__doc__'', Other),
      (''__init__'', Function (plain ''Calc.__init__'' 0)),
      (''add'', Function (plain ''Calc.add'' 1)),
      (''show'', Function (plain ''Calc.show'' 2))]"

section \<open>String lemmas\<close>

lemma startswith_append: "startswith (t @ ys) t"
  by (simp add: startswith_def)

lemma startswith_hd: "old \<noteq> [] \<Longrightarrow> c \<noteq> hd old \<Longrightarrow> \<not> startswith (c # cs) old"
  by (cases old) (auto simp: startswith_def)

lemma find_from_here: "find_from (t @ ys) t i = i"
proof (cases "t @ ys")
  case Nil
  then show ?thesis by simp
next
  case (Cons a l)
  have "startswith (a # l) t"
    using startswith_append [of t ys] Cons by simp
  then show ?thesis
    using Cons by simp
qed

lemma find_from_append: "0 \<le> i \<Longrightarrow> 0 \<le> find_from (xs @ t @ ys) t i"
proof (induction xs arbitrary: i)
  case Nil
  then show ?case by (simp add: find_from_here)
next
  case (Cons x xs)
  then show ?case by auto
qed

lemma contains_append: "contains (xs @ t @ ys) t"
  using find_from_append [of 0 xs t ys] by (simp add: contains_def find_str_def)

lemma replace_absent: "old \<noteq> [] \<Longrightarrow> hd old \<notin> set s \<Longrightarrow> replace s old new = s"
  by (induction s) (auto simp: startswith_hd)

lemma replace_here: "old \<noteq> [] \<Longrightarrow> replace (old @ post) old new = new @ replace post old new"
  by (cases old) (auto simp: startswith_def)

lemma replace_first:
  "old \<noteq> [] \<Longrightarrow> hd old \<notin> set pre \<Longrightarrow>
   replace (pre @ old @ post) old new = pre @ new @ replace post old new"
  by (induction pre) (auto simp: startswith_hd replace_here)

lemma placeholder_hd: "placeholder n \<noteq> [] \<and> hd (placeholder n) = CHR ''{''"
  by (simp add: placeholder_def)

lemma contains_placeholder: "contains (pre @ placeholder n @ post) n"
  using contains_append [of "pre @ ''{{''" n "''}}'' @ post"] by (simp add: placeholder_def)

lemmas title_defs =
  render_title_def doc_title_def markers_def strip_def strip_chars_def is_space_def
  bind_param_def item_def represent_def substitute_def contains_def find_str_def
  placeholder_def str_int_def digit_def strip_quote_def startswith_def

lemmas calc_defs =
  add_def show_fn_def twice_def Calc_def calc_def add_params_def show_params_def
  twice_params_def positional_def

lemmas wrapped_defs =
  wrapped_def resolve_args_def is_static_method_def positional_names_def has_doc_def calls_def

section \<open>The call tracer: invoking the original callable\<close>

text \<open>
  With step reporting, whenever lines 94 to 114 leave an argument list, \<open>wrapped\<close> calls
  the original callable once, with that list, and returns or raises what it does.
\<close>

lemma wrapped_with_step_reporting:
  "resolve_args f a0 = Inr a \<Longrightarrow>
   calls (fst (wrapped True f a0 kw)) = [(a, kw)] \<and> snd (wrapped True f a0 kw) = fn_body f a kw"
  by (simp add: wrapped_def calls_def Let_def)

text \<open>
  Without step reporting a documented public callable other than \<open>__init__\<close> is logged and
  not called: line 158 has no \<open>else\<close>, and \<open>wrapped\<close> returns \<open>None\<close>.
\<close>

lemma wrapped_without_step_reporting:
  "resolve_args f a0 = Inr a \<Longrightarrow> \<not> startswith (fn_name f) ''_'' \<Longrightarrow>
   calls (fst (wrapped False f a0 kw)) = [] \<and> snd (wrapped False f a0 kw) = Inr PNone"
  by (auto simp: wrapped_def calls_def Let_def startswith_def)

text \<open>
  C1.  The claim: for every wrapped public callable with a documentation string, the
  trace wrapper invokes the original callable exactly once with the resolved argument list
  and returns its result, whether or not the step-reporting capability is present.
  The code at \<open>Calc().add(2, 3)\<close> with \<open>ALLURE_STEP = False\<close>: the original \<open>add\<close> returns 5
  on these arguments, the wrapper returns \<open>None\<close> and has not called \<open>add\<close>.
\<close>

theorem wrapped_skips_call_without_step_reporting:
  "fn_body add [calc, PInt 2, PInt 3] [] = Inr (PInt 5)
   \<and> snd (wrapped False add [calc, PInt 2, PInt 3] []) = Inr PNone
   \<and> calls (fst (wrapped False add [calc, PInt 2, PInt 3] [])) = []"
  by (simp add: wrapped_defs calc_defs startswith_def)

section \<open>The keyed singleton: threads\<close>

text \<open>One thread after the other: the second finds the entry and nothing is built twice.\<close>

lemma sequential_first_use:
  "constructed (run [0, 0, 0, 0, 0, 0, 1, 1, 1] (first_use [''DEBUG'', ''DEBUG''])) = 1
   \<and> results (run [0, 0, 0, 0, 0, 0, 1, 1, 1] (first_use [''DEBUG'', ''DEBUG''])) =
       [Done (Inr (Some 0)), Done (Inr (Some 0))]"
  by (simp add: step_def goto_def first_use_def results_def)

text \<open>
  C2.  The claim: when several threads call the keyed singleton with the same key and no
  entry exists yet, the constructor runs exactly once, the check-then-construct sequence
  being entirely inside one lock, and every caller receives the one retained instance.
  The code tests the cache on line 45, before it takes the lock on line 46, and does not
  test again inside.  Two threads with the key \<open>DEBUG\<close>: both test (both miss), the first
  takes the lock, constructs, stores, releases and returns, then the second does the
  same.  The constructor has run twice and the two callers hold different instances.
\<close>

theorem race_constructs_twice:
  "constructed (run [0, 1, 0, 0, 0, 0, 0, 1, 1, 1, 1, 1] (first_use [''DEBUG'', ''DEBUG''])) = 2
   \<and> results (run [0, 1, 0, 0, 0, 0, 0, 1, 1, 1, 1, 1] (first_use [''DEBUG'', ''DEBUG''])) =
       [Done (Inr (Some 0)), Done (Inr (Some 1))]"
  by (simp add: step_def goto_def first_use_def results_def)

section \<open>The class instrumentor: idempotence\<close>

lemma class_name_trace: "class_name (trace_member m) = class_name m"
  by (simp add: class_name_def trace_member_def)

lemma log_member_marked:
  "log_mark m = Some True \<Longrightarrow> log_member cfg (name, Function m) = (name, Function m)"
  by (simp add: log_member_def)

lemma log_member_idem: "log_member cfg (log_member cfg nv) = log_member cfg nv"
proof (cases nv)
  case (Pair name v)
  show ?thesis
  proof (cases v)
    case Other
    with Pair show ?thesis by (simp add: log_member_def)
  next
    case (Function m)
    with Pair show ?thesis
      by (auto simp: log_member_def class_name_trace trace_member_def split: option.splits)
  qed
qed

text \<open>
  C3.  For every class and every configuration of class-name rules, applying \<open>log\<close>
  twice leaves every member the object that applying it once leaves; a member that
  carries the mark \<open>__log = True\<close> is not wrapped again, whatever the rules.
\<close>

theorem log_idempotent:
  "log cfg (log cfg cls) = log cfg cls
   \<and> (log_mark m = Some True \<longrightarrow> log_member cfg' (name, Function m) = (name, Function m))"
  by (simp add: log_def log_member_idem log_member_marked)

text \<open>
  On \<open>Calc\<close>: one application wraps \<open>add\<close> and \<open>show\<close> once and leaves \<open>__init__\<close>; a
  second application changes nothing.
\<close>

theorem log_idempotent_witness:
  "log rules Calc_members =
     [(''__doc__'', Other),
      (''__init__'', Function (plain ''Calc.__init__'' 0)),
      (''add'', Function (trace_member (plain ''Calc.add'' 1))),
      (''show'', Function (trace_member (plain ''Calc.show'' 2)))]
   \<and> log rules (log rules Calc_members) = log rules Calc_members
   \<and> log_mark (trace_member (plain ''Calc.add'' 1)) = Some True
   \<and> log_member rules (''add'', Function (trace_member (plain ''Calc.add'' 1))) =
       (''add'', Function (trace_member (plain ''Calc.add'' 1)))"
  using log_idempotent [of rules Calc_members "trace_member (plain ''Calc.add'' 1)" rules "''add''"]
  by (simp add: log_def log_member_def rules_def Calc_members_def plain_def selected_def
      class_name_def startswith_def trace_member_def)

section \<open>The keyed singleton: one thread\<close>

lemma allocated_fresh: "allocated fresh_state"
  by (simp add: allocated_def fresh_state_def)

lemma allocated_call: "allocated s \<Longrightarrow> allocated (snd (singleton_call ctor s args kwargs))"
  by (auto simp: singleton_call_def allocated_def Let_def ran_def split: option.splits)

lemma allocated_collect: "allocated s \<Longrightarrow> allocated (collect strong s)"
  by (auto simp: allocated_def collect_def ran_def split: option.splits if_splits)

lemma call_result_cached:
  "singleton_call ctor s args kwargs = (Inr i, s1) \<Longrightarrow> cache s1 (cache_key args kwargs) = Some i"
  by (auto simp: singleton_call_def Let_def split: option.splits)

lemma call_cache_other:
  "singleton_call ctor s args kwargs = (r, s1) \<Longrightarrow> k \<noteq> cache_key args kwargs \<Longrightarrow>
   cache s1 k = cache s k"
  by (auto simp: singleton_call_def Let_def split: option.splits)

lemma allocated_bound: "allocated s \<Longrightarrow> cache s k = Some i \<Longrightarrow> i < next_id s"
  by (auto simp: allocated_def ran_def)

lemma collect_kept:
  "cache s k = Some i \<Longrightarrow> i \<in> strong \<Longrightarrow> cache (collect strong s) k = Some i"
  by (simp add: collect_def)

lemma collect_none: "cache s k = None \<Longrightarrow> cache (collect strong s) k = None"
  by (simp add: collect_def)

text \<open>An instance nobody holds any more, apart from the cache, loses its entry.\<close>

lemma collect_dropped:
  "cache s k = Some i \<Longrightarrow> i \<notin> strong \<Longrightarrow> instance_ref s \<noteq> Some i \<Longrightarrow>
   cache (collect strong s) k = None"
  by (simp add: collect_def)

lemma collect_fields:
  "next_id (collect strong s) = next_id s \<and> constructed (collect strong s) = constructed s"
  by (simp add: collect_def)

lemma call_hit:
  "cache s (cache_key args kwargs) = Some i \<Longrightarrow>
   singleton_call ctor s args kwargs = (Inr i, s\<lparr>instance_ref := Some i\<rparr>)"
  by (simp add: singleton_call_def Let_def)

lemma call_miss:
  "cache s (cache_key args kwargs) = None \<Longrightarrow> ctor args kwargs = None \<Longrightarrow>
   fst (singleton_call ctor s args kwargs) = Inr (next_id s) \<and>
   constructed (snd (singleton_call ctor s args kwargs)) = constructed s + 1"
  by (simp add: singleton_call_def Let_def)

text \<open>
  C4.  A construction call has returned the instance \<open>i\<close>, and \<open>i\<close> is still strongly
  referenced when unowned instances are collected.  Then a call that derives the same key
  returns \<open>i\<close> itself and changes nothing but \<open>Singleton.__instance\<close> (no constructor runs);
  and a call that derives a different key, one without an entry, runs the constructor once
  and returns a new instance: its identity is not \<open>i\<close> and is not in the cache.
\<close>

theorem same_key_same_instance:
  assumes first: "singleton_call ctor s args kwargs = (Inr i, s1)"
    and held: "i \<in> strong"
    and inv: "allocated s"
    and same: "cache_key args' kwargs' = cache_key args kwargs"
    and other: "cache_key args'' kwargs'' \<noteq> cache_key args kwargs"
    and unused: "cache s (cache_key args'' kwargs'') = None"
    and ok: "ctor args'' kwargs'' = None"
  shows "singleton_call ctor (collect strong s1) args' kwargs' =
           (Inr i, (collect strong s1)\<lparr>instance_ref := Some i\<rparr>)
       \<and> fst (singleton_call ctor (collect strong s1) args'' kwargs'') = Inr (next_id s1)
       \<and> next_id s1 \<noteq> i
       \<and> next_id s1 \<notin> ran (cache s1)
       \<and> constructed (snd (singleton_call ctor (collect strong s1) args'' kwargs'')) =
           constructed s1 + 1"
proof -
  have cached: "cache s1 (cache_key args kwargs) = Some i"
    using first by (rule call_result_cached)
  have inv1: "allocated s1"
    using allocated_call [OF inv, of ctor args kwargs] first by simp
  have "cache (collect strong s1) (cache_key args' kwargs') = Some i"
    using cached held same by (simp add: collect_kept)
  then have a: "singleton_call ctor (collect strong s1) args' kwargs' =
           (Inr i, (collect strong s1)\<lparr>instance_ref := Some i\<rparr>)"
    by (rule call_hit)
  have "cache s1 (cache_key args'' kwargs'') = None"
    using call_cache_other [OF first other] unused by simp
  then have "cache (collect strong s1) (cache_key args'' kwargs'') = None"
    by (rule collect_none)
  then have b: "fst (singleton_call ctor (collect strong s1) args'' kwargs'') = Inr (next_id s1)
      \<and> constructed (snd (singleton_call ctor (collect strong s1) args'' kwargs'')) =
           constructed s1 + 1"
    using call_miss [of "collect strong s1" args'' kwargs'' ctor] ok by (simp add: collect_fields)
  have c: "next_id s1 \<noteq> i"
    using allocated_bound [OF inv1 cached] by simp
  have d: "next_id s1 \<notin> ran (cache s1)"
    using inv1 by (auto simp: allocated_def)
  show ?thesis using a b c d by simp
qed

text \<open>
  From the empty cache: \<open>logger("DEBUG")\<close> builds instance 0; while 0 is held,
  \<open>logger("DEBUG")\<close> returns 0 again and \<open>logger("INFO")\<close> builds instance 1.
\<close>

theorem same_key_same_instance_witness:
  "singleton_call no_failure fresh_state [PStr ''DEBUG''] [] = (Inr 0, after_first)
   \<and> (0::nat) \<in> {0}
   \<and> fst (singleton_call no_failure (collect {0} after_first) [PStr ''DEBUG''] []) = Inr 0
   \<and> constructed (snd (singleton_call no_failure (collect {0} after_first) [PStr ''DEBUG''] [])) = 1
   \<and> fst (singleton_call no_failure (collect {0} after_first) [PStr ''INFO''] []) = Inr 1
   \<and> constructed (snd (singleton_call no_failure (collect {0} after_first) [PStr ''INFO''] [])) = 2"
proof -
  have first: "singleton_call no_failure fresh_state [PStr ''DEBUG''] [] = (Inr 0, after_first)"
    by (simp add: after_first_def singleton_call_def fresh_state_def no_failure_def Let_def)
  have n: "next_id after_first = 1 \<and> constructed after_first = 1"
    by (simp add: after_first_def singleton_call_def fresh_state_def no_failure_def Let_def)
  have other: "cache_key [PStr ''INFO''] [] \<noteq> cache_key [PStr ''DEBUG''] []"
    by (simp add: cache_key_def kargs_def kkwargs_def)
  have unused: "cache fresh_state (cache_key [PStr ''INFO''] []) = None"
    by (simp add: fresh_state_def)
  have ok: "no_failure [PStr ''INFO''] [] = None"
    by (simp add: no_failure_def)
  show ?thesis
    using same_key_same_instance [OF first _ allocated_fresh refl other unused ok, of "{0}"] first n
    by (simp add: collect_fields)
qed

section \<open>The keyed singleton: the key\<close>

text \<open>Without keyword arguments the key is the one the specification describes.\<close>

lemma cache_key_positional: "cache_key args [] = spec_cache_key args []"
  by (simp add: cache_key_def kargs_def kkwargs_def spec_cache_key_def)

text \<open>The keyword part of the key is the keyword names alone.\<close>

lemma cache_key_ignores_values:
  "map fst kwargs = map fst kwargs' \<Longrightarrow> cache_key args kwargs = cache_key args kwargs'"
  by (cases kwargs; cases kwargs') (auto simp: cache_key_def kkwargs_def)

text \<open>
  C5.  The claim: the key is the text of each positional argument in order followed by
  the text of each keyword argument in iteration order.  Line 43 iterates over the dict
  \<open>kwargs\<close>, which yields the keyword names: for \<open>logger(level="DEBUG")\<close> the key is
  \<open>level\<close>, where the text of the argument is \<open>DEBUG\<close>, and \<open>logger(level="INFO")\<close> has the
  same key, so that after \<open>logger(level="DEBUG")\<close> it returns that first instance.
\<close>

theorem cache_key_uses_keyword_names:
  "cache_key [] [(''level'', PStr ''DEBUG'')] = ''level''
   \<and> spec_cache_key [] [(''level'', PStr ''DEBUG'')] = ''DEBUG''
   \<and> cache_key [] [(''level'', PStr ''INFO'')] = cache_key [] [(''level'', PStr ''DEBUG'')]
   \<and> fst (singleton_call no_failure fresh_state [] [(''level'', PStr ''DEBUG'')]) = Inr 0
   \<and> fst (singleton_call no_failure
             (snd (singleton_call no_failure fresh_state [] [(''level'', PStr ''DEBUG'')]))
             [] [(''level'', PStr ''INFO'')]) = Inr 0"
  by (simp add: cache_key_def kargs_def kkwargs_def spec_cache_key_def singleton_call_def
      fresh_state_def no_failure_def Let_def)

section \<open>The call tracer: the title\<close>

text \<open>
  C6.  The claim: when the documentation holds \<open>{{x}}\<close> and the parameter \<open>x\<close> receives no
  positional value, no keyword value and has no default, rendering does not raise and
  \<open>{{x}}\<close> is replaced by the empty string.  In the code such a parameter keeps
  \<open>param.default\<close>, which is then the class \<open>inspect._empty\<close>: it is truthy and not a
  string, so line 148 puts its \<open>str\<close> in the title.  At \<open>Calc().show()\<close>, with or without
  step reporting, the title is \<open>Show <class 'inspect._empty'>\<close>; the call itself is a
  proper one and returns 0.
\<close>

theorem unresolved_parameter_renders_sentinel:
  "render_title True show_fn [calc] [] = ''Show <class 'inspect._empty'>''
   \<and> render_title False show_fn [calc] [] = ''Show <class 'inspect._empty'>''
   \<and> resolve_args show_fn [calc] = Inr [calc]
   \<and> snd (wrapped True show_fn [calc] []) = Inr (PInt 0)"
  by (simp add: title_defs wrapped_defs calc_defs Let_def)

text \<open>
  The order of lines 127 to 139 with step reporting: the keyword argument of the
  parameter's name if there is one, else the positional argument at the parameter's index
  if there is one, else the declared default.
\<close>

lemma bind_param_order:
  "bind_param True a kw i p =
     (case map_of kw (pname p) of
        Some v \<Rightarrow> v
      | None \<Rightarrow> if i < length a then represent (a ! i) else pdefault p)"
  by (cases kw) (auto simp: bind_param_def item_def Let_def split: option.splits)

text \<open>Without step reporting the positional arguments are not looked at.\<close>

lemma bind_param_without_step_reporting:
  "bind_param False a kw i p =
     (case map_of kw (pname p) of Some v \<Rightarrow> v | None \<Rightarrow> pdefault p)"
  by (cases kw) (auto simp: bind_param_def Let_def split: option.splits)

text \<open>
  C7, as the claim states it: the title of \<open>add(2, 3)\<close> is \<open>Adds 2 and 3\<close>, a positional
  argument taking precedence over a keyword value.  In the code a keyword value of the
  parameter's name is assigned last and wins: with the keyword \<open>a=9\<close> next to the positional
  2 the parameter \<open>a\<close> is bound to 9 and the title is \<open>Adds 9 and 3\<close>.  And positional
  arguments are bound only under \<open>ALLURE_STEP\<close>: without it the title of \<open>add(2, 3)\<close> is not
  \<open>Adds 2 and 3\<close>.
\<close>

theorem positional_does_not_take_precedence:
  "bind_param True [calc, PInt 2, PInt 3] [(''a'', PInt 9)] 1 (positional ''a'' PEmpty) = PInt 9
   \<and> render_title True add [calc, PInt 2, PInt 3] [(''a'', PInt 9)] = ''Adds 9 and 3''
   \<and> render_title False add [calc, PInt 2, PInt 3] [] \<noteq> ''Adds 2 and 3''"
  by (simp add: title_defs calc_defs)

text \<open>
  C7, amended.  With step reporting present, a traced callable with the documentation
  \<open>Adds {{a}} and {{b}}\<close> and the parameters \<open>a\<close> and \<open>b\<close> (after \<open>self\<close> or alone), called with
  the positional arguments 2 and 3, has the title \<open>Adds 2 and 3\<close>; a parameter is bound to
  the keyword value of its name, else to the positional argument at its position, else
  to its declared default.
\<close>

theorem binding_order:
  assumes "fn_doc f = Some ''Adds {{a}} and {{b}}''"
    and "pname pa = ''a''" and "pname pb = ''b''" and "pname ps = ''self''"
  shows "render_title True (f\<lparr>fn_params := [pa, pb]\<rparr>) [PInt 2, PInt 3] [] = ''Adds 2 and 3''
       \<and> render_title True (f\<lparr>fn_params := [ps, pa, pb]\<rparr>) [r, PInt 2, PInt 3] [] = ''Adds 2 and 3''
       \<and> bind_param True a kw i p =
           (case map_of kw (pname p) of
              Some v \<Rightarrow> v
            | None \<Rightarrow> if i < length a then represent (a ! i) else pdefault p)"
proof -
  have one: "render_title True (f\<lparr>fn_params := [pa, pb]\<rparr>) [PInt 2, PInt 3] [] = ''Adds 2 and 3''"
    using assms by (simp add: title_defs)
  have two: "render_title True (f\<lparr>fn_params := [ps, pa, pb]\<rparr>) [r, PInt 2, PInt 3] [] =
      ''Adds 2 and 3''"
    using assms by (simp add: title_defs)
  show ?thesis
    using one two bind_param_order [of a kw i p] by simp
qed

theorem binding_order_witness:
  "fn_doc add = Some ''Adds {{a}} and {{b}}''
   \<and> render_title True add [calc, PInt 2, PInt 3] [] = ''Adds 2 and 3''
   \<and> bind_param True [calc, PInt 2, PInt 3] [(''b'', PInt 7)] 1 (positional ''a'' (PInt 5)) =
       PStr ''2''
   \<and> bind_param True [calc] [(''b'', PInt 7)] 1 (positional ''a'' (PInt 5)) = PInt 5"
proof -
  have doc: "fn_doc add = Some ''Adds {{a}} and {{b}}''"
    by (simp add: add_def)
  have same: "add\<lparr>fn_params := [positional ''self'' PEmpty, positional ''a'' PEmpty,
      positional ''b'' PEmpty]\<rparr> = add"
    by (simp add: add_def add_params_def)
  have names: "pname (positional ''a'' PEmpty) = ''a'' \<and> pname (positional ''b'' PEmpty) = ''b''
      \<and> pname (positional ''self'' PEmpty) = ''self''"
    by (simp add: positional_def)
  show ?thesis
    using binding_order [of add "positional ''a'' PEmpty" "positional ''b'' PEmpty"
        "positional ''self'' PEmpty" calc "[calc, PInt 2, PInt 3]" "[(''b'', PInt 7)]" 1
        "positional ''a'' (PInt 5)"]
      binding_order [of add "positional ''a'' PEmpty" "positional ''b'' PEmpty"
        "positional ''self'' PEmpty" calc "[calc]" "[(''b'', PInt 7)]" 1
        "positional ''a'' (PInt 5)"]
      doc same names
    by (simp add: positional_def represent_def str_int_def digit_def)
qed

text \<open>
  C8, as the claim states it: a parameter bound to 0 or \<open>False\<close> has its placeholder
  replaced by the text \<open>0\<close> or \<open>False\<close>.  Line 143 tests the truth value of the argument and
  line 151 replaces the placeholder of a falsy one by the empty string: \<open>twice(n=0)\<close> has
  the title \<open>Twice \<close>, and so has a call that leaves \<open>n\<close> to a default of \<open>False\<close>.
\<close>

theorem falsy_value_renders_empty:
  "py_str (PInt 0) = ''0''
   \<and> render_title True twice [] [(''n'', PInt 0)] = ''Twice ''
   \<and> snd (wrapped True twice [] [(''n'', PInt 0)]) = Inr (PInt 0)
   \<and> py_str (PBool False) = ''False''
   \<and> render_title True (twice\<lparr>fn_params := [positional ''n'' (PBool False)]\<rparr>) [] [] = ''Twice ''"
  by (simp add: title_defs wrapped_defs calc_defs Let_def)

text \<open>
  C8, amended.  For a parameter bound to a truthy value the placeholder \<open>{{name}}\<close> is
  replaced by the value's text: a string with its leading and trailing apostrophes
  stripped, any other value by its \<open>str\<close>.  For a falsy value (\<open>None\<close>, \<open>False\<close>, 0, the empty
  string) it is replaced by the empty string.  Stated for the first placeholder of a
  title, no brace before it; the rest of the title is replaced alike.
\<close>

theorem substitute_placeholder:
  "CHR ''{'' \<notin> set pre \<Longrightarrow>
   substitute (pre @ placeholder n @ post) (n, v) =
     pre @ (if truthy v then (if is_str v then strip_quote (py_str v) else py_str v) else [])
         @ replace post (placeholder n)
             (if truthy v then (if is_str v then strip_quote (py_str v) else py_str v) else [])"
  by (simp add: substitute_def contains_placeholder replace_first placeholder_hd)

theorem substitute_placeholder_witness:
  "CHR ''{'' \<notin> set ''Twice ''
   \<and> substitute ''Twice {{n}}'' (''n'', PInt 7) = ''Twice 7''
   \<and> substitute ''Twice {{n}}'' (''n'', PStr [CHR 0x27, CHR ''h'', CHR ''i'', CHR 0x27]) = ''Twice hi''
   \<and> substitute ''Twice {{n}}'' (''n'', PNone) = ''Twice ''"
  using substitute_placeholder [of "''Twice ''" "''n''" "[]" "PInt 7"]
    substitute_placeholder [of "''Twice ''" "''n''" "[]" "PStr [CHR 0x27, CHR ''h'', CHR ''i'', CHR 0x27]"]
    substitute_placeholder [of "''Twice ''" "''n''" "[]" PNone]
  by (simp add: placeholder_def str_int_def digit_def strip_quote_def strip_chars_def)

text \<open>The same for the whole title of a callable with one parameter, not named \<open>self\<close>.\<close>

lemma render_title_single:
  assumes "fn_doc f = Some d" and "doc_title d = pre @ placeholder (pname p) @ post"
    and "fn_params f = [p]" and "pname p \<noteq> ''self''" and "CHR ''{'' \<notin> set pre"
  shows "render_title al f a kw =
     substitute (pre @ placeholder (pname p) @ post) (pname p, bind_param al a kw 0 p)"
proof -
  have "d \<noteq> []"
    using assms(2) by (auto simp: doc_title_def placeholder_def strip_def strip_chars_def)
  then show ?thesis
    using assms by (simp add: render_title_def)
qed

section \<open>The call tracer: the receiver\<close>

text \<open>
  An instance method as \<open>log\<close> leaves it in its class: a plain function whose first
  parameter is \<open>self\<close>.  \<open>is_static_method\<close> answers \<open>False\<close> for it, so line 112 is not
  reached and the argument list keeps the receiver.
\<close>

lemma resolve_instance_method:
  assumes "fn_findclass f = Inr (Some k)"
    and "kattrs k (fn_name f) = Some (Routine (p0 # ps) isfunction)"
    and "pname p0 = ''self''"
    and "pkind p0 = POSITIONAL_OR_KEYWORD \<or> pkind p0 = POSITIONAL_ONLY"
    and "\<not> fn_ismethod f"
  shows "resolve_args f (r # args) = Inr (r # args)"
  using assms
  by (auto simp: resolve_args_def is_static_method_def positional_names_def)

text \<open>
  A static method called through an instance is the case line 112 is for: the receiver
  is dropped.
\<close>

lemma resolve_static_method: "resolve_args twice [calc, PInt 4] = Inr [PInt 4]"
  by (simp add: wrapped_defs calc_defs startswith_def)

lemma bind_param_receiver:
  "0 < i \<Longrightarrow> bind_param al (r # args) kw i p = bind_param al (r' # args) kw i p"
  by (cases i) (auto simp: bind_param_def item_def Let_def split: option.splits)

lemma params_text_receiver:
  "0 < i \<Longrightarrow> params_text al (r # args) kw i ps = params_text al (r' # args) kw i ps"
  by (induction ps arbitrary: i) (auto simp: bind_param_receiver)

lemma params_text_no_self: "''self'' \<notin> fst ` set (params_text al a kw i ps)"
  by (induction ps arbitrary: i) auto

lemma render_title_receiver:
  "fn_params f = p0 # ps \<Longrightarrow> pname p0 = ''self'' \<Longrightarrow>
   render_title al f (r # args) kw = render_title al f (r' # args) kw"
  using params_text_receiver [of 1 al r args kw ps r']
  by (simp add: render_title_def split: option.splits)

text \<open>
  C9, as the claim states it: for an instance method the leading receiver argument is
  dropped before templating.  At \<open>Calc().add(2, 3)\<close> the argument list after lines 94 to
  114 still begins with the receiver.
\<close>

theorem receiver_stays_in_arguments:
  "resolve_args add [calc, PInt 2, PInt 3] = Inr [calc, PInt 2, PInt 3]
   \<and> resolve_args add [calc, PInt 2, PInt 3] \<noteq> Inr [PInt 2, PInt 3]"
  by (simp add: wrapped_defs calc_defs startswith_def)

text \<open>
  C9, amended.  For a traced instance method (a plain function of its class whose first
  parameter is \<open>self\<close>) the receiver stays at the head of the argument list, the parameter
  \<open>self\<close> is excluded from binding, and the rendered title does not depend on the
  receiver: since \<open>enumerate\<close> counts \<open>self\<close>, no parameter is bound to the argument at
  index 0.
\<close>

theorem receiver_not_in_title:
  assumes "fn_findclass f = Inr (Some k)"
    and "kattrs k (fn_name f) = Some (Routine (fn_params f) isfunction)"
    and "fn_params f = p0 # ps"
    and "pname p0 = ''self''"
    and "pkind p0 = POSITIONAL_OR_KEYWORD \<or> pkind p0 = POSITIONAL_ONLY"
    and "\<not> fn_ismethod f"
  shows "resolve_args f (r # args) = Inr (r # args)
       \<and> ''self'' \<notin> fst ` set (params_text al (r # args) kw 0 (fn_params f))
       \<and> render_title al f (r # args) kw = render_title al f (r' # args) kw"
proof -
  have a: "resolve_args f (r # args) = Inr (r # args)"
    using assms resolve_instance_method [of f k p0 ps isfunction r args] by simp
  have b: "render_title al f (r # args) kw = render_title al f (r' # args) kw"
    using assms(3,4) by (rule render_title_receiver)
  show ?thesis
    using a b params_text_no_self by simp
qed

theorem receiver_not_in_title_witness:
  "fn_findclass add = Inr (Some Calc)
   \<and> resolve_args add [calc, PInt 2, PInt 3] = Inr [calc, PInt 2, PInt 3]
   \<and> render_title True add [calc, PInt 2, PInt 3] [] = ''Adds 2 and 3''
   \<and> render_title True add [PObj [''Sub'', ''Calc'', ''object''] ''a Sub'' ''<Sub object>'' False, PInt 2, PInt 3] [] =
       ''Adds 2 and 3''"
proof -
  have cls: "fn_findclass add = Inr (Some Calc)"
    by (simp add: add_def)
  have attr: "kattrs Calc (fn_name add) = Some (Routine (fn_params add) True)"
    by (simp add: add_def Calc_def)
  have params: "fn_params add = positional ''self'' PEmpty
      # [positional ''a'' PEmpty, positional ''b'' PEmpty]"
    by (simp add: add_def add_params_def)
  have self: "pname (positional ''self'' PEmpty) = ''self''
      \<and> pkind (positional ''self'' PEmpty) = POSITIONAL_OR_KEYWORD"
    by (simp add: positional_def)
  have plain: "\<not> fn_ismethod add"
    by (simp add: add_def)
  have title: "render_title True add [calc, PInt 2, PInt 3] [] = ''Adds 2 and 3''"
    by (simp add: title_defs calc_defs)
  show ?thesis
    using receiver_not_in_title [OF cls attr params _ _ plain,
        of calc "[PInt 2, PInt 3]" True "[]" "PObj [''Sub'', ''Calc'', ''object''] ''a Sub'' ''<Sub object>'' False"]
      self cls title
    by simp
qed

section \<open>The logging facade: severity of debug\<close>

text \<open>
  With automatic prefixing and no caller frame at all, the lookup of line 318 raises
  before anything is emitted; and a failure to build the sinks leaves \<open>debug\<close> as it is.
\<close>

lemma debug_no_caller: "debug None True [] message True = Inl ValueError"
  by (simp add: debug_def getframe_def)

lemma debug_sink_failure: "debug (Some e) has_getframe stack message auteadd = Inl e"
  by (simp add: debug_def)



end
